theory Spec2Isabelle
  imports Main
begin

section \<open>Resumable chunked streaming reader and the VDiff2 fan-out\<close>

text \<open>
  A shallow embedding of \<^verbatim>\<open>go/vt/worker/restartable_result_reader.go\<close> and
  \<^verbatim>\<open>go/vt/wrangler/vdiff2.go\<close>. Go slices that the code compares with \<^verbatim>\<open>nil\<close>
  are \<open>'a list option\<close>, pointers that may be \<^verbatim>\<open>nil\<close> are options, a panic of the
  Go runtime is the left injection of a sum, and every call that leaves the process
  (tablet provider, dialer, stream, RPC, counters) is answered by an oracle of the
  \<open>world\<close> and written to its \<open>trace\<close>.
\<close>

subsection \<open>Errors and panics\<close>

text \<open>
  Go's \<^verbatim>\<open>error\<close> values. \<open>Wrap e msg\<close> is \<^verbatim>\<open>vterrors.Wrap(e, msg)\<close>; a \<^verbatim>\<open>nil\<close> error is
  \<open>None :: error option\<close>.
\<close>

datatype error =
    io_EOF
  | context_DeadlineExceeded
  | context_Canceled
  | Failure string
  | Wrap error string

text \<open>The two run-time panics the modelled code can raise.\<close>

datatype panic = IndexOutOfRange | NilDereference

text \<open>\<^verbatim>\<open>xs[i]\<close> with Go's bounds check.\<close>

definition index :: "'a list \<Rightarrow> nat \<Rightarrow> panic + 'a" where
  "index xs i = (if i < length xs then Inr (xs ! i) else Inl IndexOutOfRange)"

subsection \<open>SQL primitives\<close>

text \<open>
  \<^verbatim>\<open>sqlescape.EscapeID\<close>, \<^verbatim>\<open>sqltypes.Value.EncodeSQL\<close> and \<^verbatim>\<open>sqltypes.Value.IsNull\<close>
  live in packages outside the two files, so the value type \<open>'v\<close> and the three
  functions are parameters. \<^verbatim>\<open>sqlescape.WriteEscapeID(&b, id)\<close> appends \<open>EscapeID id\<close> to
  the builder, \<^verbatim>\<open>v.EncodeSQL(&b)\<close> appends \<open>EncodeSQL v\<close>.
\<close>

record 'v sqlprims =
  EscapeID :: "string \<Rightarrow> string"
  EncodeSQL :: "'v \<Rightarrow> string"
  IsNull :: "'v \<Rightarrow> bool"

text \<open>\<^verbatim>\<open>escapeAll\<close> of the worker package: \<^verbatim>\<open>EscapeID\<close> on every identifier.\<close>

definition escapeAll :: "'v sqlprims \<Rightarrow> string list \<Rightarrow> string list" where
  "escapeAll P identifiers = map (EscapeID P) identifiers"

text \<open>\<^verbatim>\<open>strings.Join(elems, sep)\<close>.\<close>

fun Join :: "string list \<Rightarrow> string \<Rightarrow> string" where
  "Join [] sep = []"
| "Join [x] sep = x"
| "Join (x # y # ys) sep = x @ sep @ Join (y # ys) sep"

subsection \<open>Table definition and chunk\<close>

record TableDefinition =
  Name :: string
  Columns :: "string list"
  PrimaryKeyColumns :: "string list"

record 'v chunk =
  start :: 'v
  end' :: 'v

subsection \<open>greaterThanTupleWhereClause\<close>

text \<open>
  The loop \<^verbatim>\<open>for i := 0; i < len(columns); i++\<close> that writes the list of values into
  the builder \<open>b\<close>; \<^verbatim>\<open>row[i]\<close> panics when \<open>i\<close> is not below \<open>length row\<close>.
\<close>

function values_loop ::
  "'v sqlprims \<Rightarrow> nat \<Rightarrow> string list \<Rightarrow> 'v list \<Rightarrow> string \<Rightarrow> panic + string" where
  "values_loop P i columns row b =
     (if i < length columns then
        (case index row i of
           Inl p \<Rightarrow> Inl p
         | Inr v \<Rightarrow>
             values_loop P (i + 1) columns row
               ((if i \<noteq> 0 then b @ '','' else b) @ EncodeSQL P v))
      else Inr b)"
  by pat_completeness auto
termination
  by (relation "measure (\<lambda>(P, i, columns, row, b). length columns - i)") auto

declare values_loop.simps [simp del]

definition greaterThanTupleWhereClause ::
  "'v sqlprims \<Rightarrow> string list \<Rightarrow> 'v list \<Rightarrow> panic + string list" where
  "greaterThanTupleWhereClause P columns row =
     (case (if length columns > 1 then
              (case index columns 0 of
                 Inl p \<Rightarrow> Inl p
               | Inr c0 \<Rightarrow>
                   (case index row 0 of
                      Inl p \<Rightarrow> Inl p
                    | Inr v0 \<Rightarrow> Inr [EscapeID P c0 @ ''>='' @ EncodeSQL P v0]))
            else Inr [])
      of
        Inl p \<Rightarrow> Inl p
      | Inr clauses \<Rightarrow>
          (let b = (if length columns > 1 then ''('' else '''');
               b = b @ Join (escapeAll P columns) '','';
               b = (if length columns > 1 then b @ '')'' else b);
               b = b @ ''>'';
               b = (if length columns > 1 then b @ ''('' else b)
           in case values_loop P 0 columns row b of
                Inl p \<Rightarrow> Inl p
              | Inr b \<Rightarrow>
                  (let b = (if length columns > 1 then b @ '')'' else b)
                   in Inr (clauses @ [b]))))"

subsection \<open>Tablets, streams and the world outside the reader\<close>

text \<open>
  \<^verbatim>\<open>topodatapb.Tablet\<close>, with the fields the reader touches; \<open>Alias\<close> is the string
  \<^verbatim>\<open>topoproto.TabletAliasString(tablet.Alias)\<close>.
\<close>

record Tablet =
  Alias :: string
  Keyspace :: string
  Shard :: string
  Type :: nat

text \<open>\<^verbatim>\<open>querypb.Target{Keyspace, Shard, TabletType}\<close>.\<close>

datatype Target = Target string string nat

text \<open>A \<^verbatim>\<open>queryservice.QueryService\<close> handle returned by the dialer.\<close>

type_synonym QueryService = nat

text \<open>
  \<^verbatim>\<open>sqltypes.Result\<close>: a row is a slice of values, which may be \<^verbatim>\<open>nil\<close>.
\<close>

record 'v Result =
  Fields :: "string list"
  Rows :: "'v list option list"

text \<open>
  \<^verbatim>\<open>sqltypes.ResultStream\<close>: the answers \<open>(result, err)\<close> of its successive \<^verbatim>\<open>Recv()\<close>
  calls. \<open>Recv\<close> gives the next answer and the stream after it.
\<close>

type_synonym 'v ResultStream = "nat \<Rightarrow> 'v Result option \<times> error option"

definition Recv ::
  "'v ResultStream \<Rightarrow> ('v Result option \<times> error option) \<times> 'v ResultStream" where
  "Recv stream = (stream 0, \<lambda>n. stream (Suc n))"

text \<open>
  The calls that leave the reader, in the order they are made. \<open>LogRetry alias attempt\<close>
  is the log line at the \<^verbatim>\<open>retry:\<close> label of \<^verbatim>\<open>nextWithRetries\<close>, which prints the attempt
  number; the other log lines are not modelled.
\<close>

datatype event =
    TpGetTablet
  | TpReturnTablet "Tablet option"
  | Dial Tablet
  | ConnClose QueryService
  | ExecuteWithStreamer QueryService Target string
  | ExecuteWithTransactionalStreamer QueryService Target string int
  | RecvCall
  | StatsRetryCount
  | StatsStreamingQuery string
  | StatsStreamingQueryErrors string
  | StatsRestartsSameTablet string
  | StatsRestartsDifferentTablet
  | LogRetry string nat

text \<open>
  The environment. The \<open>k\<close>-th call of \<^verbatim>\<open>tp.getTablet()\<close> is answered by
  \<open>tp_getTablet k\<close>, the \<open>k\<close>-th dial by \<open>dialer k\<close>, and the \<open>k\<close>-th streaming query that
  is started returns the stream \<open>streamer k\<close>; the counters say how many calls were made.
\<close>

record 'v world =
  tp_getTablet :: "nat \<Rightarrow> error + Tablet"
  tp_description :: string
  dialer :: "nat \<Rightarrow> Tablet \<Rightarrow> error + QueryService"
  streamer :: "nat \<Rightarrow> 'v ResultStream"
  tp_calls :: nat
  dial_calls :: nat
  exec_calls :: nat
  trace :: "event list"

definition emit :: "event list \<Rightarrow> 'v world \<Rightarrow> 'v world" where
  "emit evs w = w\<lparr>trace := trace w @ evs\<rparr>"

subsection \<open>The reader\<close>

text \<open>
  \<^verbatim>\<open>RestartableResultReader\<close>. The fields \<^verbatim>\<open>ctx\<close>, \<^verbatim>\<open>logger\<close> and \<^verbatim>\<open>tp\<close> are the world;
  \<^verbatim>\<open>fields\<close> is \<open>fields'\<close>, with \<^verbatim>\<open>nil\<close> as the empty list.
\<close>

record 'v RestartableResultReader =
  td :: TableDefinition
  chunk :: "'v chunk"
  allowMultipleRetries :: bool
  txID :: int
  query :: string
  tablet :: "Tablet option"
  conn :: "QueryService option"
  fields' :: "string list"
  output' :: "'v ResultStream option"
  lastRow :: "'v list option"

subsection \<open>generateQuery\<close>

definition generateQuery ::
  "'v sqlprims \<Rightarrow> 'v RestartableResultReader \<Rightarrow> panic + 'v RestartableResultReader" where
  "generateQuery P r =
     (let query0 = ''SELECT '' @ Join (escapeAll P (Columns (td r))) '','' @ '' FROM ''
                     @ EscapeID P (Name (td r))
      in case (case lastRow r of
                 None \<Rightarrow>
                   (if \<not> IsNull P (start (chunk r)) then
                      (case index (PrimaryKeyColumns (td r)) 0 of
                         Inl p \<Rightarrow> Inl p
                       | Inr pk0 \<Rightarrow>
                           Inr [EscapeID P pk0 @ ''>='' @ EncodeSQL P (start (chunk r))])
                    else Inr [])
               | Some row \<Rightarrow> greaterThanTupleWhereClause P (PrimaryKeyColumns (td r)) row)
         of
           Inl p \<Rightarrow> Inl p
         | Inr clauses \<Rightarrow>
             (case (if \<not> IsNull P (end' (chunk r)) then
                      (case index (PrimaryKeyColumns (td r)) 0 of
                         Inl p \<Rightarrow> Inl p
                       | Inr pk0 \<Rightarrow>
                           Inr (clauses @ [EscapeID P pk0 @ ''<'' @ EncodeSQL P (end' (chunk r))]))
                    else Inr clauses)
              of
                Inl p \<Rightarrow> Inl p
              | Inr clauses \<Rightarrow>
                  (let query1 = (if length clauses > 0
                                 then query0 @ '' WHERE '' @ Join clauses '' AND ''
                                 else query0);
                       query2 = (if length (PrimaryKeyColumns (td r)) > 0
                                 then query1 @ '' ORDER BY ''
                                        @ Join (escapeAll P (PrimaryKeyColumns (td r))) '',''
                                 else query1)
                   in Inr (r\<lparr>query := query2\<rparr>))))"

subsection \<open>Close, getTablet, startStream\<close>

definition Close ::
  "'v RestartableResultReader \<Rightarrow> 'v world \<Rightarrow> 'v RestartableResultReader \<times> 'v world" where
  "Close r w =
     (case conn r of
        None \<Rightarrow> (r, w)
      | Some c \<Rightarrow> (r, emit [ConnClose c, TpReturnTablet (tablet r)] w))"

text \<open>
  \<^verbatim>\<open>getTablet\<close> returns \<open>(retryable, err)\<close> and the new state. The dialer is taken to
  return a connection that is not \<^verbatim>\<open>nil\<close> when it returns no error.
\<close>

definition getTablet ::
  "'v RestartableResultReader \<Rightarrow> 'v world \<Rightarrow>
     (bool \<times> error option) \<times> 'v RestartableResultReader \<times> 'v world" where
  "getTablet r w =
     (let (r, w) =
            (if tablet r \<noteq> None then
               (let (r, w) = Close r w
                in (r\<lparr>tablet := None, conn := None, fields' := [], output' := None\<rparr>, w))
             else (r, w));
          answer = tp_getTablet w (tp_calls w);
          w = emit [TpGetTablet] (w\<lparr>tp_calls := tp_calls w + 1\<rparr>)
      in case answer of
           Inl err \<Rightarrow>
             ((True, Some (Wrap err ''failed get tablet for streaming query'')), r, w)
         | Inr tablet' \<Rightarrow>
             (let dialled = dialer w (dial_calls w) tablet';
                  w = emit [Dial tablet'] (w\<lparr>dial_calls := dial_calls w + 1\<rparr>)
              in case dialled of
                   Inl err \<Rightarrow>
                     ((False, Some (Wrap err ''failed to get dialer for tablet'')), r, w)
                 | Inr conn' \<Rightarrow>
                     ((False, None), r\<lparr>tablet := Some tablet', conn := Some conn'\<rparr>, w)))"

text \<open>
  \<^verbatim>\<open>startStream\<close>. A \<^verbatim>\<open>nil\<close> tablet or connection, and a first answer with neither a
  result nor an error, are \<^verbatim>\<open>nil\<close> dereferences.
\<close>

definition startStream ::
  "'v sqlprims \<Rightarrow> 'v RestartableResultReader \<Rightarrow> 'v world \<Rightarrow>
     panic + ((bool \<times> error option) \<times> 'v RestartableResultReader \<times> 'v world)" where
  "startStream P r w =
     (case generateQuery P r of
        Inl p \<Rightarrow> Inl p
      | Inr r \<Rightarrow>
          (case conn r of
             None \<Rightarrow> Inl NilDereference
           | Some c \<Rightarrow>
               (case tablet r of
                  None \<Rightarrow> Inl NilDereference
                | Some t \<Rightarrow>
                    (let target = Target (Keyspace t) (Shard t) (Type t);
                         stream = streamer w (exec_calls w);
                         w = emit [if txID r = 0
                                   then ExecuteWithStreamer c target (query r)
                                   else ExecuteWithTransactionalStreamer c target (query r)
                                          (txID r)]
                               (w\<lparr>exec_calls := exec_calls w + 1\<rparr>);
                         ((cols, err), stream) = Recv stream;
                         w = emit [RecvCall] w
                     in case err of
                          Some e \<Rightarrow>
                            Inr ((True,
                                  Some (Wrap e (''cannot read Fields for query '' @ query r))),
                                 r, w)
                        | None \<Rightarrow>
                            (case cols of
                               None \<Rightarrow> Inl NilDereference
                             | Some cols \<Rightarrow>
                                 Inr ((False, None),
                                      r\<lparr>fields' := Fields cols, output' := Some stream\<rparr>,
                                      emit [StatsStreamingQuery (Alias t)] w))))))"

subsection \<open>tryToConnect and the constructor\<close>

text \<open>One pass through the body of the loop of \<^verbatim>\<open>tryToConnect\<close>, up to the \<^verbatim>\<open>retry:\<close> label.\<close>

definition connect_attempt ::
  "'v sqlprims \<Rightarrow> 'v RestartableResultReader \<Rightarrow> 'v world \<Rightarrow>
     panic + ((bool \<times> error option) \<times> 'v RestartableResultReader \<times> 'v world)" where
  "connect_attempt P r w =
     (case getTablet r w of
        ((retryable, Some err), r, w) \<Rightarrow>
          Inr ((retryable, Some (Wrap err ''tablet=unknown'')), r, w)
      | ((retryable, None), r, w) \<Rightarrow>
          (case startStream P r w of
             Inl p \<Rightarrow> Inl p
           | Inr ((retryable, Some err), r, w) \<Rightarrow>
               (case tablet r of
                  None \<Rightarrow> Inl NilDereference
                | Some t \<Rightarrow> Inr ((retryable, Some (Wrap err (''tablet='' @ Alias t))), r, w))
           | Inr ((retryable, None), r, w) \<Rightarrow> Inr ((retryable, None), r, w)))"

definition show_bool :: "bool \<Rightarrow> string" where
  "show_bool b = (if b then ''true'' else ''false'')"

text \<open>
  The loop of \<^verbatim>\<open>tryToConnect\<close>; \<open>attempt\<close> is the counter before \<^verbatim>\<open>attempt++\<close>. The
  source writes \<^verbatim>\<open>for { ... }\<close>; the loop is left as soon as \<open>attempt > 1\<close>.
\<close>

function tryToConnect_loop ::
  "'v sqlprims \<Rightarrow> nat \<Rightarrow> 'v RestartableResultReader \<Rightarrow> 'v world \<Rightarrow>
     panic + (error option \<times> 'v RestartableResultReader \<times> 'v world)" where
  "tryToConnect_loop P attempt r w =
     (case connect_attempt P r w of
        Inl p \<Rightarrow> Inl p
      | Inr ((retryable, None), r, w) \<Rightarrow> Inr (None, r, w)
      | Inr ((retryable, Some err), r, w) \<Rightarrow>
          (if \<not> retryable \<or> attempt + 1 > 1 then
             Inr (Some (Wrap err (''failed to initialize tablet connection: retryable ''
                                    @ show_bool retryable)), r, w)
           else tryToConnect_loop P (attempt + 1) r (emit [StatsRetryCount] w)))"
  by pat_completeness auto
termination
  by (relation "measure (\<lambda>(P, attempt, r, w). 2 - attempt)") auto

declare tryToConnect_loop.simps [simp del]

definition tryToConnect ::
  "'v sqlprims \<Rightarrow> 'v RestartableResultReader \<Rightarrow> 'v world \<Rightarrow>
     panic + (error option \<times> 'v RestartableResultReader \<times> 'v world)" where
  "tryToConnect P r w = tryToConnect_loop P 0 r w"

text \<open>
  \<^verbatim>\<open>NewRestartableResultReader\<close> returns \<open>(reader, err)\<close>; the reader is \<^verbatim>\<open>nil\<close> when
  \<^verbatim>\<open>tryToConnect\<close> fails.
\<close>

definition NewRestartableResultReader ::
  "'v sqlprims \<Rightarrow> 'v world \<Rightarrow> TableDefinition \<Rightarrow> 'v chunk \<Rightarrow> bool \<Rightarrow>
     panic + (('v RestartableResultReader option \<times> error option) \<times> 'v world)" where
  "NewRestartableResultReader P w td0 chunk0 allowMultipleRetries0 =
     (let r = \<lparr>td = td0, chunk = chunk0, allowMultipleRetries = allowMultipleRetries0,
                txID = 0, query = '''', tablet = None, conn = None, fields' = [],
                output' = None, lastRow = None\<rparr>
      in case tryToConnect P r w of
           Inl p \<Rightarrow> Inl p
         | Inr (Some err, r, w) \<Rightarrow> Inr ((None, Some err), w)
         | Inr (None, r, w) \<Rightarrow> Inr ((Some r, None), w))"

text \<open>\<^verbatim>\<open>NewTransactionalRestartableResultReader\<close>: the same inside the transaction \<open>txID0\<close>.\<close>

definition NewTransactionalRestartableResultReader ::
  "'v sqlprims \<Rightarrow> 'v world \<Rightarrow> TableDefinition \<Rightarrow> 'v chunk \<Rightarrow> bool \<Rightarrow> int \<Rightarrow>
     panic + (('v RestartableResultReader option \<times> error option) \<times> 'v world)" where
  "NewTransactionalRestartableResultReader P w td0 chunk0 allowMultipleRetries0 txID0 =
     (let r = \<lparr>td = td0, chunk = chunk0, allowMultipleRetries = allowMultipleRetries0,
                txID = txID0, query = '''', tablet = None, conn = None, fields' = [],
                output' = None, lastRow = None\<rparr>
      in case tryToConnect P r w of
           Inl p \<Rightarrow> Inl p
         | Inr (Some err, r, w) \<Rightarrow> Inr ((None, Some err), w)
         | Inr (None, r, w) \<Rightarrow> Inr ((Some r, None), w))"

subsection \<open>Next and nextWithRetries\<close>

text \<open>
  What one pass through the loop body of \<^verbatim>\<open>nextWithRetries\<close> does: it returns from the
  function, or it jumps to the \<^verbatim>\<open>retry:\<close> label with the error \<open>err\<close>.
\<close>

datatype 'v attempt_outcome =
    Returned "'v Result option" "error option" "'v RestartableResultReader" "'v world"
  | GotoRetry error "'v RestartableResultReader" "'v world"

text \<open>
  The last part of the loop body: \<^verbatim>\<open>r.output.Recv()\<close> and the successful return.
\<close>

definition attempt_recv ::
  "nat \<Rightarrow> 'v RestartableResultReader \<Rightarrow> 'v world \<Rightarrow> panic + 'v attempt_outcome" where
  "attempt_recv attempt r w =
     (case output' r of
        None \<Rightarrow> Inl NilDereference
      | Some stream \<Rightarrow>
          (let ((result, err), stream) = Recv stream;
               r = r\<lparr>output' := Some stream\<rparr>;
               w = emit [RecvCall] w
           in if err = None \<or> err = Some io_EOF then
                (case tablet r of
                   None \<Rightarrow> Inl NilDereference
                 | Some t \<Rightarrow>
                     Inr (Returned result err r
                            (emit [if attempt = 2 then StatsRestartsSameTablet (Alias t)
                                   else StatsRestartsDifferentTablet] w)))
              else Inr (GotoRetry (the err) r w)))"

text \<open>The middle part: \<^verbatim>\<open>if attempt > 1 { ... r.startStream() ... }\<close>.\<close>

definition attempt_restart ::
  "'v sqlprims \<Rightarrow> nat \<Rightarrow> 'v RestartableResultReader \<Rightarrow> 'v world \<Rightarrow>
     panic + 'v attempt_outcome" where
  "attempt_restart P attempt r w =
     (if attempt > 1 then
        (case startStream P r w of
           Inl p \<Rightarrow> Inl p
         | Inr ((retryable, Some err), r, w) \<Rightarrow>
             (if \<not> retryable then Inr (Returned None (Some err) r w)
              else Inr (GotoRetry err r w))
         | Inr ((retryable, None), r, w) \<Rightarrow> attempt_recv attempt r w)
      else attempt_recv attempt r w)"

text \<open>
  The whole loop body up to the \<^verbatim>\<open>retry:\<close> label, for the counter \<open>attempt\<close> after
  \<^verbatim>\<open>attempt++\<close>; it starts with \<^verbatim>\<open>if attempt > 2 { ... r.getTablet() ... }\<close>.
\<close>

definition nextWithRetries_attempt ::
  "'v sqlprims \<Rightarrow> nat \<Rightarrow> 'v RestartableResultReader \<Rightarrow> 'v world \<Rightarrow>
     panic + 'v attempt_outcome" where
  "nextWithRetries_attempt P attempt r w =
     (if attempt > 2 then
        (case getTablet r w of
           ((retryable, Some err), r, w) \<Rightarrow>
             (if \<not> retryable then Inr (Returned None (Some err) r w)
              else Inr (GotoRetry err r w))
         | ((retryable, None), r, w) \<Rightarrow> attempt_restart P attempt r w)
      else attempt_restart P attempt r w)"

text \<open>
  The retry context \<^verbatim>\<open>context.WithTimeout(r.ctx, *retryDuration)\<close>, as the \<^verbatim>\<open>select\<close> at the
  end of a failed attempt sees it: \<open>pauses\<close> times the timer of \<^verbatim>\<open>executeFetchRetryTime\<close>
  fires first, then the context is done and \<^verbatim>\<open>retryCtx.Err()\<close> is \<open>ctxErr\<close>. The timeout
  bounds the number of pauses, so the loop is a recursion on it.
\<close>

record retryCtx =
  pauses :: nat
  ctxErr :: error

text \<open>
  The statements between the \<^verbatim>\<open>retry:\<close> label and the \<^verbatim>\<open>select\<close>: the error counter of
  the tablet, when there is one, and the log line with the attempt number.
\<close>

definition note_retry :: "nat \<Rightarrow> 'v RestartableResultReader \<Rightarrow> 'v world \<Rightarrow> 'v world" where
  "note_retry attempt r w =
     (case tablet r of
        None \<Rightarrow> emit [LogRetry ''unknown'' attempt] w
      | Some t \<Rightarrow> emit [StatsStreamingQueryErrors (Alias t), LogRetry (Alias t) attempt] w)"

text \<open>
  The messages of the three errors that \<^verbatim>\<open>nextWithRetries\<close> builds itself, each after
  \<^verbatim>\<open>r.tp.description()\<close>; the durations printed into the last two are left out.
\<close>

definition first_retry_failed :: string where
  "first_retry_failed =
     '': first retry to restart the streaming query on the same tablet failed. We're failing at this point because we're not allowed to keep retrying. err''"

definition retry_deadline_exceeded :: string where
  "retry_deadline_exceeded = '': failed to restart the streaming connection after retrying''"

definition retry_interrupted :: string where
  "retry_interrupted = '': interrupted while trying to restart the streaming connection''"

text \<open>The error returned by the branch \<^verbatim>\<open>case <-retryCtx.Done()\<close> of the \<^verbatim>\<open>select\<close>.\<close>

definition ctx_done_error :: "error \<Rightarrow> 'v world \<Rightarrow> error" where
  "ctx_done_error cerr w =
     (if cerr = context_DeadlineExceeded
      then Wrap cerr (tp_description w @ retry_deadline_exceeded)
      else Wrap cerr (tp_description w @ retry_interrupted))"

text \<open>
  The loop of \<^verbatim>\<open>nextWithRetries\<close>; \<open>attempt\<close> is the counter before \<^verbatim>\<open>attempt++\<close>, \<open>cerr\<close>
  and \<open>n\<close> are the error and the remaining pauses of the retry context.
\<close>

fun retry_loop ::
  "'v sqlprims \<Rightarrow> error \<Rightarrow> nat \<Rightarrow> nat \<Rightarrow> 'v RestartableResultReader \<Rightarrow> 'v world \<Rightarrow>
     panic + (('v Result option \<times> error option) \<times> 'v RestartableResultReader \<times> 'v world)"
  where
  "retry_loop P cerr n attempt r w =
     (case nextWithRetries_attempt P (attempt + 1) r w of
        Inl p \<Rightarrow> Inl p
      | Inr (Returned result err r w) \<Rightarrow> Inr ((result, err), r, w)
      | Inr (GotoRetry err r w) \<Rightarrow>
          (if attempt + 1 = 2 \<and> \<not> allowMultipleRetries r then
             Inr ((None, Some (Wrap err (tp_description w @ first_retry_failed))), r, w)
           else
             (let w = note_retry (attempt + 1) r w
              in case n of
                   0 \<Rightarrow> Inr ((None, Some (ctx_done_error cerr w)), r, w)
                 | Suc m \<Rightarrow> retry_loop P cerr m (attempt + 1) r w)))"

declare retry_loop.simps [simp del]

definition nextWithRetries ::
  "'v sqlprims \<Rightarrow> retryCtx \<Rightarrow> 'v RestartableResultReader \<Rightarrow> 'v world \<Rightarrow>
     panic + (('v Result option \<times> error option) \<times> 'v RestartableResultReader \<times> 'v world)"
  where
  "nextWithRetries P ctx r w = retry_loop P (ctxErr ctx) (pauses ctx) 1 r w"

text \<open>
  \<^verbatim>\<open>Next\<close>; \<open>ctx\<close> is the retry context that \<^verbatim>\<open>nextWithRetries\<close> would create in this call.
\<close>

definition Next ::
  "'v sqlprims \<Rightarrow> retryCtx \<Rightarrow> 'v RestartableResultReader \<Rightarrow> 'v world \<Rightarrow>
     panic + (('v Result option \<times> error option) \<times> 'v RestartableResultReader \<times> 'v world)"
  where
  "Next P ctx r w =
     (case output' r of
        None \<Rightarrow> Inl NilDereference
      | Some stream \<Rightarrow>
          (let ((result, err), stream) = Recv stream;
               r = r\<lparr>output' := Some stream\<rparr>;
               w = emit [RecvCall] w
           in case (if err \<noteq> None \<and> err \<noteq> Some io_EOF then
                      (case tablet r of
                         None \<Rightarrow> Inl NilDereference
                       | Some t \<Rightarrow>
                           nextWithRetries P ctx r
                             (emit [StatsStreamingQueryErrors (Alias t)] w))
                    else Inr ((result, err), r, w))
              of
                Inl p \<Rightarrow> Inl p
              | Inr ((result, err), r, w) \<Rightarrow>
                  (case result of
                     None \<Rightarrow> Inr ((result, err), r, w)
                   | Some res \<Rightarrow>
                       (if length (Rows res) > 0 then
                          Inr ((result, err),
                               r\<lparr>lastRow := Rows res ! (length (Rows res) - 1)\<rparr>, w)
                        else Inr ((result, err), r, w)))))"

text \<open>\<^verbatim>\<open>Fields\<close> of the reader.\<close>

definition Fields_of :: "'v RestartableResultReader \<Rightarrow> string list" where
  "Fields_of r = fields' r"

subsection \<open>VDiff2\<close>

text \<open>
  \<^verbatim>\<open>tabletmanagerdata.VDiffRequest\<close> with its fields in the order \<^verbatim>\<open>Keyspace\<close>, \<^verbatim>\<open>Workflow\<close>,
  \<^verbatim>\<open>Command\<close>, \<^verbatim>\<open>SubCommand\<close>, \<^verbatim>\<open>Options\<close>, \<^verbatim>\<open>VdiffUuid\<close>. The options \<open>'o\<close> and the
  responses \<open>'p\<close> are messages of another package and stay parameters.
\<close>

datatype 'o VDiffRequest = VDiffRequest string string string string "'o option" string

text \<open>\<^verbatim>\<open>VDiffOutput\<close>, without its mutex; a stored response may be \<^verbatim>\<open>nil\<close>.\<close>

record ('o, 'p) VDiffOutput =
  Request :: "'o VDiffRequest"
  Responses :: "string \<rightharpoonup> 'p option"
  Err :: "error option"

text \<open>
  \<^verbatim>\<open>workflow.MigrationTarget\<close>: \<open>Primary\<close> is \<^verbatim>\<open>target.GetPrimary().Tablet\<close> and \<open>ShardName\<close>
  is \<^verbatim>\<open>target.GetShard().ShardName()\<close>.
\<close>

record MigrationTarget =
  Primary :: Tablet
  ShardName :: string

text \<open>
  The wrangler, as far as \<^verbatim>\<open>VDiff2\<close> uses it: \<^verbatim>\<open>wr.buildTrafficSwitcher\<close> returns the
  targets of the traffic switcher and an error, \<^verbatim>\<open>wr.tmc.VDiff\<close> a response and an error.
\<close>

record ('o, 'p) Wrangler =
  buildTrafficSwitcher :: "string \<Rightarrow> string \<Rightarrow> MigrationTarget list \<times> error option"
  tmc_VDiff :: "Tablet \<Rightarrow> 'o VDiffRequest \<Rightarrow> 'p option \<times> error option"

text \<open>
  Modelled from the spec: \<^verbatim>\<open>ForAllTargets\<close> of the traffic switcher, which is not in the
  two source files. It runs the callback for every target, lets every one of them finish,
  and gives back the first error that a callback returned. The callbacks write the shared
  output under its mutex, so they are run one after the other, in the order of the list.
\<close>

fun ForAllTargets ::
  "MigrationTarget list \<Rightarrow> (MigrationTarget \<Rightarrow> 's \<Rightarrow> error option \<times> 's) \<Rightarrow> 's \<Rightarrow>
     error option \<times> 's" where
  "ForAllTargets [] f s = (None, s)"
| "ForAllTargets (t # ts) f s =
     (let (e, s) = f t s;
          (es, s) = ForAllTargets ts f s
      in (case e of Some x \<Rightarrow> Some x | None \<Rightarrow> es, s))"

text \<open>The function literal that \<^verbatim>\<open>VDiff2\<close> passes to \<^verbatim>\<open>ForAllTargets\<close>.\<close>

definition VDiff2_callback ::
  "('o, 'p) Wrangler \<Rightarrow> 'o VDiffRequest \<Rightarrow> MigrationTarget \<Rightarrow> ('o, 'p) VDiffOutput \<Rightarrow>
     error option \<times> ('o, 'p) VDiffOutput" where
  "VDiff2_callback wr req target out =
     (let (resp, err) = tmc_VDiff wr (Primary target) req;
          out = out\<lparr>Responses := (Responses out)(ShardName target \<mapsto> resp)\<rparr>
      in (err, out))"

text \<open>
  \<^verbatim>\<open>VDiff2\<close> returns \<open>(output, err)\<close>. The variable \<open>err\<close> of the function body is the one
  assigned by \<^verbatim>\<open>buildTrafficSwitcher\<close>; the callback declares its own.
\<close>

definition VDiff2 ::
  "('o, 'p) Wrangler \<Rightarrow> string \<Rightarrow> string \<Rightarrow> string \<Rightarrow> string \<Rightarrow> string \<Rightarrow> 'o option \<Rightarrow>
     ('o, 'p) VDiffOutput option \<times> error option" where
  "VDiff2 wr keyspace workflowName command subCommand uuid options =
     (let req = VDiffRequest keyspace workflowName command subCommand options uuid;
          out = \<lparr>Request = req, Responses = Map.empty, Err = None\<rparr>;
          (ts, err) = buildTrafficSwitcher wr keyspace workflowName
      in if err \<noteq> None then (None, err)
         else
           (let (e, out) = ForAllTargets ts (VDiff2_callback wr req) out;
                out = out\<lparr>Err := e\<rparr>
            in if Err out \<noteq> None then (None, err)
               else (Some out, None)))"

subsection \<open>Sample inputs\<close>

text \<open>
  Concrete inputs on which the theorems below are instantiated. A sample value is
  \<open>None\<close> for SQL \<^verbatim>\<open>NULL\<close> or \<open>Some lit\<close> for a value whose SQL literal is \<open>lit\<close>;
  identifiers are put between backquotes.
\<close>

definition sample_prims :: "string option sqlprims" where
  "sample_prims =
     \<lparr>EscapeID = (\<lambda>id. ''`'' @ id @ ''`''),
      EncodeSQL = (\<lambda>v. case v of None \<Rightarrow> ''null'' | Some lit \<Rightarrow> lit),
      IsNull = (\<lambda>v. v = None)\<rparr>"

definition quoted :: "string \<Rightarrow> string" where
  "quoted s = [CHR 0x27] @ s @ [CHR 0x27]"

definition sample_td :: TableDefinition where
  "sample_td = \<lparr>Name = ''t'', Columns = [''region'', ''id'', ''msg''],
                 PrimaryKeyColumns = [''region'', ''id'']\<rparr>"

definition sample_reader :: "string option RestartableResultReader" where
  "sample_reader =
     \<lparr>td = sample_td, chunk = \<lparr>start = Some ''5'', end' = Some ''50''\<rparr>,
      allowMultipleRetries = True, txID = 0, query = '''', tablet = None, conn = None,
      fields' = [], output' = None, lastRow = None\<rparr>"

definition sample_tablet :: Tablet where
  "sample_tablet = \<lparr>Alias = ''zone1-100'', Keyspace = ''ks'', Shard = ''-80'', Type = 2\<rparr>"

definition other_tablet :: Tablet where
  "other_tablet = \<lparr>Alias = ''zone1-101'', Keyspace = ''ks'', Shard = ''-80'', Type = 3\<rparr>"

definition failing_stream :: "string option ResultStream" where
  "failing_stream = (\<lambda>n. (None, Some (Failure ''connection lost'')))"

definition failing_world :: "string option world" where
  "failing_world =
     \<lparr>tp_getTablet = (\<lambda>k. Inr other_tablet), tp_description = ''provider'',
      dialer = (\<lambda>k t. Inr (Suc k)), streamer = (\<lambda>k. failing_stream),
      tp_calls = 0, dial_calls = 0, exec_calls = 0, trace = []\<rparr>"

definition connected_reader :: "string option RestartableResultReader" where
  "connected_reader =
     sample_reader\<lparr>tablet := Some sample_tablet, conn := Some 0,
                    output' := Some failing_stream\<rparr>"

definition sample_target :: MigrationTarget where
  "sample_target = \<lparr>Primary = sample_tablet, ShardName = ''-80''\<rparr>"

definition other_target :: MigrationTarget where
  "other_target = \<lparr>Primary = other_tablet, ShardName = ''80-''\<rparr>"

definition failing_wrangler :: "(unit, string) Wrangler" where
  "failing_wrangler =
     \<lparr>buildTrafficSwitcher = (\<lambda>keyspace workflowName. ([sample_target, other_target], None)),
      tmc_VDiff = (\<lambda>t req. if t = sample_tablet then (None, Some (Failure ''rpc failed''))
                            else (Some ''done'', None))\<rparr>"

definition sample_request :: "unit VDiffRequest" where
  "sample_request = VDiffRequest ''ks'' ''wf'' ''show'' ''last'' None ''''"

definition empty_output :: "(unit, string) VDiffOutput" where
  "empty_output = \<lparr>Request = sample_request, Responses = Map.empty, Err = None\<rparr>"

subsection \<open>Observing a run\<close>

text \<open>
  What no operation of the retry protocol changes: the table, the chunk, the retry flag,
  the transaction and \<^verbatim>\<open>lastRow\<close> of the reader, and the oracles of the world, whose trace
  only grows.
\<close>

definition reader_frame ::
  "'v RestartableResultReader \<Rightarrow> 'v RestartableResultReader \<Rightarrow> bool" where
  "reader_frame r r' \<longleftrightarrow>
     td r' = td r \<and> chunk r' = chunk r \<and> allowMultipleRetries r' = allowMultipleRetries r \<and>
     txID r' = txID r \<and> lastRow r' = lastRow r"

definition world_frame :: "'v world \<Rightarrow> 'v world \<Rightarrow> bool" where
  "world_frame w w' \<longleftrightarrow>
     tp_getTablet w' = tp_getTablet w \<and> tp_description w' = tp_description w \<and>
     dialer w' = dialer w \<and> streamer w' = streamer w \<and>
     (\<exists>evs. trace w' = trace w @ evs)"

text \<open>The same for the state that an attempt leaves behind.\<close>

definition outcome_frame ::
  "'v RestartableResultReader \<Rightarrow> 'v world \<Rightarrow> 'v attempt_outcome \<Rightarrow> bool" where
  "outcome_frame r w out =
     (case out of
        Returned res err r' w' \<Rightarrow> reader_frame r r' \<and> world_frame w w'
      | GotoRetry err r' w' \<Rightarrow> reader_frame r r' \<and> world_frame w w')"

text \<open>The target that \<^verbatim>\<open>startStream\<close> builds from a tablet.\<close>

definition target_of :: "Tablet \<Rightarrow> Target" where
  "target_of t = Target (Keyspace t) (Shard t) (Type t)"

text \<open>The connection and the target of a streaming query that is started.\<close>

fun exec_conn :: "event \<Rightarrow> QueryService option" where
  "exec_conn (ExecuteWithStreamer c target q) = Some c"
| "exec_conn (ExecuteWithTransactionalStreamer c target q tx) = Some c"
| "exec_conn _ = None"

fun exec_target :: "event \<Rightarrow> Target option" where
  "exec_target (ExecuteWithStreamer c target q) = Some target"
| "exec_target (ExecuteWithTransactionalStreamer c target q tx) = Some target"
| "exec_target _ = None"

text \<open>
  The events by which the retry protocol is observed: closing the connection and returning
  the tablet to the provider, asking the provider for a tablet, dialling it, starting a
  streaming query, and the log line that ends a failed attempt. \<open>new_steps w w'\<close> are those
  among the events added from \<open>w\<close> to \<open>w'\<close>.
\<close>

fun protocol_step :: "event \<Rightarrow> bool" where
  "protocol_step TpGetTablet = True"
| "protocol_step (TpReturnTablet t) = True"
| "protocol_step (Dial t) = True"
| "protocol_step (ConnClose c) = True"
| "protocol_step (ExecuteWithStreamer c target q) = True"
| "protocol_step (ExecuteWithTransactionalStreamer c target q tx) = True"
| "protocol_step (LogRetry alias attempt) = True"
| "protocol_step _ = False"

definition new_steps :: "'v world \<Rightarrow> 'v world \<Rightarrow> event list" where
  "new_steps w w' = filter protocol_step (drop (length (trace w)) (trace w'))"

text \<open>
  The streaming query that a restart of the reader \<open>r\<close> starts on the connection \<open>c\<close> to the
  tablet \<open>t\<close>: its text is the query that \<^verbatim>\<open>generateQuery\<close> builds for \<open>r\<close>.
\<close>

definition restart_query :: "'v sqlprims \<Rightarrow> 'v RestartableResultReader \<Rightarrow> string" where
  "restart_query P r = (case generateQuery P r of Inl p \<Rightarrow> [] | Inr r' \<Rightarrow> query r')"

definition restart_event ::
  "'v sqlprims \<Rightarrow> 'v RestartableResultReader \<Rightarrow> QueryService \<Rightarrow> Tablet \<Rightarrow> event" where
  "restart_event P r c t =
     (if txID r = 0 then ExecuteWithStreamer c (target_of t) (restart_query P r)
      else ExecuteWithTransactionalStreamer c (target_of t) (restart_query P r) (txID r))"

text \<open>The tablet and the connection that the reader holds, when it holds both.\<close>

definition held :: "'v RestartableResultReader \<Rightarrow> (Tablet \<times> QueryService) option" where
  "held r =
     (case tablet r of
        None \<Rightarrow> None
      | Some t \<Rightarrow> (case conn r of None \<Rightarrow> None | Some c \<Rightarrow> Some (t, c)))"




text \<open>
  A restart on this stream fails, with an error that can be retried: reading the fields
  fails, or the first receive after them fails with an error other than \<^verbatim>\<open>io.EOF\<close>.
\<close>

definition stream_fails :: "'v ResultStream \<Rightarrow> bool" where
  "stream_fails stream \<longleftrightarrow>
     snd (stream 0) \<noteq> None \<or> (snd (stream 1) \<noteq> None \<and> snd (stream 1) \<noteq> Some io_EOF)"


subsection \<open>Sample runs\<close>

text \<open>
  Streams, worlds and readers for the instances below: a stream that delivers its fields
  and then a batch of two rows, a stream of empty batches, a world whose provider hands
  out a second tablet, and a world whose dialer fails.
\<close>

definition sample_batch :: "string option Result" where
  "sample_batch = \<lparr>Fields = [], Rows = [Some [Some ''8'', Some ''1''], Some [Some ''9'', Some ''2'']]\<rparr>"

definition rows_stream :: "string option ResultStream" where
  "rows_stream =
     (\<lambda>n. if n = 0 then (Some \<lparr>Fields = [''region'', ''id'', ''msg''], Rows = []\<rparr>, None)
          else if n = 1 then (Some sample_batch, None)
          else (None, Some io_EOF))"

definition recovering_world :: "string option world" where
  "recovering_world = failing_world\<lparr>streamer := (\<lambda>k. rows_stream)\<rparr>"

definition sample_ctx :: retryCtx where
  "sample_ctx = \<lparr>pauses = 2, ctxErr = context_DeadlineExceeded\<rparr>"

definition empty_batch_stream :: "string option ResultStream" where
  "empty_batch_stream = (\<lambda>n. (Some \<lparr>Fields = [], Rows = []\<rparr>, None))"

definition resumed_reader :: "string option RestartableResultReader" where
  "resumed_reader =
     connected_reader\<lparr>lastRow := Some [Some ''7'', Some ''3''],
                       output' := Some empty_batch_stream\<rparr>"

definition undialable_world :: "string option world" where
  "undialable_world = failing_world\<lparr>dialer := (\<lambda>k t. Inl (Failure ''no dialer''))\<rparr>"

definition single_retry_reader :: "string option RestartableResultReader" where
  "single_retry_reader = connected_reader\<lparr>allowMultipleRetries := False\<rparr>"


section \<open>Verified properties\<close>

subsection \<open>Query synthesis\<close>

lemma Join_Cons: "Join (x # xs) sep = x @ concat (map (\<lambda>y. sep @ y) xs)"
  by (induction xs arbitrary: x) auto

lemma index_in_range: "i < length xs \<Longrightarrow> index xs i = Inr (xs ! i)"
  by (simp add: index_def)

lemma index_out_of_range: "length xs \<le> i \<Longrightarrow> index xs i = Inl IndexOutOfRange"
  by (simp add: index_def)

lemma values_loop_tail:
  "0 < i \<Longrightarrow> i \<le> length columns \<Longrightarrow> length columns \<le> length row \<Longrightarrow>
   values_loop P i columns row b =
     Inr (b @ concat (map (\<lambda>v. '','' @ EncodeSQL P v) (drop i (take (length columns) row))))"
proof (induction "length columns - i" arbitrary: i b)
  case 0
  then show ?case by (subst values_loop.simps) simp
next
  case (Suc k)
  then have lt: "i < length columns" and ir: "i < length row" by simp_all
  have d: "drop i (take (length columns) row) = row ! i # drop (Suc i) (take (length columns) row)"
    using lt ir by (simp add: Cons_nth_drop_Suc [symmetric])
  have "values_loop P i columns row b =
          values_loop P (Suc i) columns row ((b @ '','') @ EncodeSQL P (row ! i))"
    using lt ir Suc.prems(1) by (subst values_loop.simps) (simp add: index_in_range)
  also have "\<dots> = Inr (((b @ '','') @ EncodeSQL P (row ! i)) @
      concat (map (\<lambda>v. '','' @ EncodeSQL P v) (drop (Suc i) (take (length columns) row))))"
    using Suc.hyps(2) lt Suc.prems(3) by (intro Suc.hyps(1)) simp_all
  finally show ?case by (simp add: d)
qed

lemma values_loop_ok:
  assumes "length columns \<le> length row"
  shows "values_loop P 0 columns row b =
           Inr (b @ Join (map (EncodeSQL P) (take (length columns) row)) '','')"
proof (cases columns)
  case Nil
  then show ?thesis by (subst values_loop.simps) simp
next
  case (Cons c cs)
  then obtain v vs where row: "row = v # vs" using assms by (cases row) auto
  have "values_loop P 0 columns row b = values_loop P 1 columns row (b @ EncodeSQL P v)"
    using Cons row by (subst values_loop.simps) (simp add: index_def)
  also have "\<dots> = Inr ((b @ EncodeSQL P v) @
      concat (map (\<lambda>v. '','' @ EncodeSQL P v) (drop 1 (take (length columns) row))))"
    using Cons assms by (intro values_loop_tail) simp_all
  finally show ?thesis using Cons row by (simp add: Join_Cons comp_def)
qed

lemma values_loop_fail:
  "length row < length columns \<Longrightarrow> i \<le> length row \<Longrightarrow>
   values_loop P i columns row b = Inl IndexOutOfRange"
proof (induction "length row - i" arbitrary: i b)
  case 0
  then show ?case by (subst values_loop.simps) (simp add: index_def)
next
  case (Suc k)
  then have ir: "i < length row" by simp
  have "values_loop P i columns row b =
          values_loop P (Suc i) columns row
            ((if i \<noteq> 0 then b @ '','' else b) @ EncodeSQL P (row ! i))"
    using ir Suc.prems(1) by (subst values_loop.simps) (simp add: index_in_range)
  also have "\<dots> = Inl IndexOutOfRange"
    using Suc.hyps(2) ir Suc.prems(1) by (intro Suc.hyps(1)) simp_all
  finally show ?case .
qed

lemma gt_ok:
  assumes "length columns \<le> length row"
  shows "greaterThanTupleWhereClause P columns row =
    Inr (if length columns > 1
         then [EscapeID P (columns ! 0) @ ''>='' @ EncodeSQL P (row ! 0),
               ''('' @ Join (escapeAll P columns) '','' @ '')>(''
                 @ Join (map (EncodeSQL P) (take (length columns) row)) '','' @ '')'']
         else [Join (escapeAll P columns) '','' @ ''>''
                 @ Join (map (EncodeSQL P) (take (length columns) row)) '',''])"
  using assms
  by (auto simp: greaterThanTupleWhereClause_def values_loop_ok index_def Let_def)

lemma gt_fail:
  assumes "length row < length columns"
  shows "greaterThanTupleWhereClause P columns row = Inl IndexOutOfRange"
  using assms
  by (simp add: greaterThanTupleWhereClause_def values_loop_fail index_def Let_def)

text \<open>
  Claim C2. For a non-empty column list of length \<open>n\<close> and a row of \<open>n\<close> values,
  \<^verbatim>\<open>greaterThanTupleWhereClause\<close> returns the single clause \<^verbatim>\<open>col1>v1\<close> when \<open>n = 1\<close>, and
  the two clauses \<^verbatim>\<open>col1>=v1\<close> and \<^verbatim>\<open>(col1,...,coln)>(v1,...,vn)\<close> when \<open>n > 1\<close>, with
  every column escaped and every value encoded.
\<close>

theorem greaterThanTupleWhereClause_emits:
  assumes "columns \<noteq> []" and "length row = length columns"
  shows "greaterThanTupleWhereClause P columns row =
    Inr (if length columns = 1
         then [EscapeID P (columns ! 0) @ ''>'' @ EncodeSQL P (row ! 0)]
         else [EscapeID P (columns ! 0) @ ''>='' @ EncodeSQL P (row ! 0),
               ''('' @ Join (escapeAll P columns) '','' @ '')>(''
                 @ Join (map (EncodeSQL P) row) '','' @ '')''])"
proof (cases "length columns = 1")
  case True
  then obtain c where c: "columns = [c]" by (cases columns) auto
  then obtain v where v: "row = [v]" using assms(2) by (cases row) auto
  show ?thesis using c v by (simp add: gt_ok escapeAll_def)
next
  case False
  then have "length columns > 1" using assms(1) by (cases columns) auto
  then show ?thesis using assms(2) by (simp add: gt_ok)
qed

theorem greaterThanTupleWhereClause_emits_witness:
  "[''region'', ''id''] \<noteq> [] \<and>
   length [Some (quoted ''us''), Some ''10''] = length [''region'', ''id''] \<and>
   greaterThanTupleWhereClause sample_prims [''region'', ''id''] [Some (quoted ''us''), Some ''10'']
     = Inr [''`region`>='' @ quoted ''us'', ''(`region`,`id`)>('' @ quoted ''us'' @ '',10)''] \<and>
   greaterThanTupleWhereClause sample_prims [''id''] [Some ''7''] = Inr [''`id`>7'']"
  using greaterThanTupleWhereClause_emits
          [of "[''region'', ''id'']" "[Some (quoted ''us''), Some ''10'']" sample_prims]
        greaterThanTupleWhereClause_emits [of "[''id'']" "[Some ''7'']" sample_prims]
  by (simp add: sample_prims_def escapeAll_def quoted_def)

text \<open>
  Claim C9. When the row has at least as many values as there are columns, every
  \<^verbatim>\<open>row[i]\<close> of \<^verbatim>\<open>greaterThanTupleWhereClause\<close> is in bounds and the function returns its
  clauses; when the row is shorter than the column list, an access is out of bounds and
  the function panics.
\<close>

theorem greaterThanTupleWhereClause_total:
  "(length columns \<le> length row \<longrightarrow>
      (\<exists>clauses. greaterThanTupleWhereClause P columns row = Inr clauses)) \<and>
   (length row < length columns \<longrightarrow>
      greaterThanTupleWhereClause P columns row = Inl IndexOutOfRange)"
  by (simp add: gt_ok gt_fail)

theorem greaterThanTupleWhereClause_total_witness:
  "length [''a'', ''b''] \<le> length [Some ''1'', Some ''2''] \<and>
   (\<exists>clauses. greaterThanTupleWhereClause sample_prims [''a'', ''b''] [Some ''1'', Some ''2'']
                = Inr clauses) \<and>
   length [Some ''1''] < length [''a'', ''b''] \<and>
   greaterThanTupleWhereClause sample_prims [''a'', ''b''] [Some ''1''] = Inl IndexOutOfRange"
  using greaterThanTupleWhereClause_total [of "[''a'', ''b'']" "[Some ''1'', Some ''2'']" sample_prims]
        greaterThanTupleWhereClause_total [of "[''a'', ''b'']" "[Some ''1'']" sample_prims]
  by simp

lemma Join_snoc: "xs \<noteq> [] \<Longrightarrow> Join (xs @ [y]) sep = Join xs sep @ sep @ y"
  by (induction xs sep rule: Join.induct) auto

lemma gt_nonempty: "greaterThanTupleWhereClause P columns row = Inr clauses \<Longrightarrow> clauses \<noteq> []"
  by (auto simp: greaterThanTupleWhereClause_def Let_def split: sum.splits if_splits)

text \<open>
  Claim C1. For a table with at least one primary-key column and a chunk whose start and
  end are both non-null, the query of \<^verbatim>\<open>generateQuery\<close> is the select list, then a
  \<^verbatim>\<open>WHERE\<close> with one lower bound (\<^verbatim>\<open>pk[0]>=start\<close> when \<^verbatim>\<open>lastRow\<close> is \<^verbatim>\<open>nil\<close>, the clauses
  of \<^verbatim>\<open>greaterThanTupleWhereClause\<close> for \<^verbatim>\<open>lastRow\<close> otherwise) and the one upper bound
  \<^verbatim>\<open>pk[0]<end\<close>, then an \<^verbatim>\<open>ORDER BY\<close> of all primary-key columns in order. The only other
  outcome is the panic of \<^verbatim>\<open>greaterThanTupleWhereClause\<close> on a \<^verbatim>\<open>lastRow\<close> that is too short.
\<close>

theorem generateQuery_bounded_chunk:
  assumes "PrimaryKeyColumns (td r) \<noteq> []"
    and "\<not> IsNull P (start (chunk r))" and "\<not> IsNull P (end' (chunk r))"
  shows "generateQuery P r =
    (let pk = PrimaryKeyColumns (td r);
         select = ''SELECT '' @ Join (escapeAll P (Columns (td r))) '','' @ '' FROM ''
                    @ EscapeID P (Name (td r));
         upper = EscapeID P (pk ! 0) @ ''<'' @ EncodeSQL P (end' (chunk r));
         order_by = '' ORDER BY '' @ Join (escapeAll P pk) '',''
     in case lastRow r of
          None \<Rightarrow>
            Inr (r\<lparr>query := select @ '' WHERE ''
                     @ (EscapeID P (pk ! 0) @ ''>='' @ EncodeSQL P (start (chunk r)))
                     @ '' AND '' @ upper @ order_by\<rparr>)
        | Some row \<Rightarrow>
            (case greaterThanTupleWhereClause P pk row of
               Inl p \<Rightarrow> Inl p
             | Inr resume \<Rightarrow>
                 Inr (r\<lparr>query := select @ '' WHERE '' @ Join resume '' AND ''
                          @ '' AND '' @ upper @ order_by\<rparr>)))"
proof (cases "lastRow r")
  case None
  then show ?thesis using assms
    by (simp add: generateQuery_def index_def Let_def)
next
  case (Some row)
  show ?thesis
  proof (cases "greaterThanTupleWhereClause P (PrimaryKeyColumns (td r)) row")
    case (Inl p)
    then show ?thesis using Some by (simp add: generateQuery_def Let_def)
  next
    case (Inr resume)
    then have "resume \<noteq> []" by (rule gt_nonempty)
    then show ?thesis using Some Inr assms
      by (simp add: generateQuery_def index_def Let_def Join_snoc)
  qed
qed

theorem generateQuery_bounded_chunk_witness:
  "PrimaryKeyColumns (td sample_reader) \<noteq> [] \<and>
   \<not> IsNull sample_prims (start (chunk sample_reader)) \<and>
   \<not> IsNull sample_prims (end' (chunk sample_reader)) \<and>
   generateQuery sample_prims sample_reader =
     Inr (sample_reader\<lparr>query :=
       ''SELECT `region`,`id`,`msg` FROM `t` WHERE `region`>=5 AND `region`<50 ORDER BY `region`,`id`''\<rparr>) \<and>
   generateQuery sample_prims (sample_reader\<lparr>lastRow := Some [Some ''7'', Some ''3'']\<rparr>) =
     Inr (sample_reader\<lparr>lastRow := Some [Some ''7'', Some ''3''], query :=
       ''SELECT `region`,`id`,`msg` FROM `t` WHERE `region`>=7 AND (`region`,`id`)>(7,3) AND `region`<50 ORDER BY `region`,`id`''\<rparr>)"
  using generateQuery_bounded_chunk [of sample_reader sample_prims]
        generateQuery_bounded_chunk
          [of "sample_reader\<lparr>lastRow := Some [Some ''7'', Some ''3'']\<rparr>" sample_prims]
  by (simp add: sample_reader_def sample_td_def sample_prims_def escapeAll_def gt_ok)

subsection \<open>Close\<close>

lemma Close_reader: "fst (Close r w) = r"
  by (cases "conn r") (simp_all add: Close_def)

text \<open>
  Claim C8, as amended. \<^verbatim>\<open>Close\<close> without a connection is a no-op, and \<^verbatim>\<open>Close\<close> never
  changes a field of the reader, so the connection stays set. Every call with a connection
  held therefore closes the connection and returns the tablet to the provider once more:
  two calls in a row return it twice.
\<close>

theorem Close_repeated:
  "(conn r = None \<longrightarrow> Close r w = (r, w)) \<and>
   fst (Close r w) = r \<and>
   (\<forall>c. conn r = Some c \<longrightarrow>
      trace (snd (Close r w)) = trace w @ [ConnClose c, TpReturnTablet (tablet r)] \<and>
      trace (snd (Close (fst (Close r w)) (snd (Close r w)))) =
        trace w @ [ConnClose c, TpReturnTablet (tablet r),
                   ConnClose c, TpReturnTablet (tablet r)])"
  by (auto simp: Close_def emit_def split: option.splits)

theorem Close_repeated_witness:
  "conn sample_reader = None \<and> Close sample_reader failing_world = (sample_reader, failing_world) \<and>
   conn connected_reader = Some 0 \<and>
   trace (snd (Close connected_reader failing_world)) =
     [ConnClose 0, TpReturnTablet (Some sample_tablet)] \<and>
   trace (snd (Close (fst (Close connected_reader failing_world))
                     (snd (Close connected_reader failing_world)))) =
     [ConnClose 0, TpReturnTablet (Some sample_tablet),
      ConnClose 0, TpReturnTablet (Some sample_tablet)]"
proof -
  have none: "conn sample_reader = None"
    by (simp add: sample_reader_def)
  have held: "conn connected_reader = Some 0" "tablet connected_reader = Some sample_tablet"
    by (simp_all add: connected_reader_def)
  have quiet: "trace failing_world = []"
    by (simp add: failing_world_def)
  show ?thesis
    using Close_repeated [of sample_reader failing_world]
          Close_repeated [of connected_reader failing_world] none held quiet
    by auto
qed

text \<open>
  Claim C8 as stated fails: on a reader that holds a connection the second \<^verbatim>\<open>Close\<close>
  changes the world again, and the tablet has been returned twice.
\<close>

theorem Close_twice_counterexample:
  "snd (Close (fst (Close connected_reader failing_world))
              (snd (Close connected_reader failing_world)))
     \<noteq> snd (Close connected_reader failing_world) \<and>
   length (filter (\<lambda>e. e = TpReturnTablet (Some sample_tablet))
             (trace (snd (Close (fst (Close connected_reader failing_world))
                                (snd (Close connected_reader failing_world)))))) = 2"
proof -
  have "trace (snd (Close (fst (Close connected_reader failing_world))
                          (snd (Close connected_reader failing_world))))
        \<noteq> trace (snd (Close connected_reader failing_world))"
    by (simp add: Close_def emit_def connected_reader_def sample_reader_def failing_world_def)
  then have "snd (Close (fst (Close connected_reader failing_world))
              (snd (Close connected_reader failing_world)))
     \<noteq> snd (Close connected_reader failing_world)" by auto
  then show ?thesis
    by (simp add: Close_def emit_def connected_reader_def sample_reader_def failing_world_def)
qed

subsection \<open>VDiff2\<close>

text \<open>
  Claim C7. \<^verbatim>\<open>VDiff2\<close> is to report an error to its caller when a per-shard RPC fails.
  On a wrangler whose first target fails, the code returns \<^verbatim>\<open>nil, err\<close> with the \<open>err\<close> of
  \<^verbatim>\<open>buildTrafficSwitcher\<close>, which is \<^verbatim>\<open>nil\<close> there: the caller gets neither an output nor
  an error.
\<close>

theorem VDiff2_drops_shard_error:
  "VDiff2 failing_wrangler ''ks'' ''wf'' ''show'' ''last'' '''' None = (None, None)"
  by (simp add: VDiff2_def failing_wrangler_def VDiff2_callback_def sample_target_def
      other_target_def sample_tablet_def other_tablet_def)

text \<open>
  More generally, once \<^verbatim>\<open>buildTrafficSwitcher\<close> has succeeded no error of a shard reaches
  the caller of \<^verbatim>\<open>VDiff2\<close>.
\<close>

lemma VDiff2_returns_no_shard_error:
  "snd (buildTrafficSwitcher wr keyspace workflowName) = None \<Longrightarrow>
   snd (VDiff2 wr keyspace workflowName command subCommand uuid options) = None"
  by (auto simp: VDiff2_def Let_def split: prod.splits)

lemma VDiff2_callback_dom:
  "dom (Responses (snd (VDiff2_callback wr req t out))) = insert (ShardName t) (dom (Responses out))"
  by (simp add: VDiff2_callback_def split: prod.splits)

lemma ForAllTargets_dom:
  "dom (Responses (snd (ForAllTargets ts (VDiff2_callback wr req) out)))
     = ShardName ` set ts \<union> dom (Responses out)"
proof (induction ts arbitrary: out)
  case Nil
  show ?case by simp
next
  case (Cons t ts)
  obtain e out1 where cb: "VDiff2_callback wr req t out = (e, out1)" by (cases "VDiff2_callback wr req t out")
  obtain es out2 where rest: "ForAllTargets ts (VDiff2_callback wr req) out1 = (es, out2)"
    by (cases "ForAllTargets ts (VDiff2_callback wr req) out1")
  have "dom (Responses out1) = insert (ShardName t) (dom (Responses out))"
    using VDiff2_callback_dom [of wr req t out] cb by simp
  moreover have "dom (Responses out2) = ShardName ` set ts \<union> dom (Responses out1)"
    using Cons.IH [of out1] rest by simp
  ultimately show ?case using cb rest by auto
qed

text \<open>
  Claim C10. The callback of \<^verbatim>\<open>VDiff2\<close> stores the response of the RPC, \<^verbatim>\<open>nil\<close> or not,
  under the shard name of its target and returns the error of the RPC; after the fan-out
  every target has an entry in \<^verbatim>\<open>Responses\<close>, whether its RPC failed or not.
\<close>

theorem VDiff2_callback_stores_response:
  "Responses (snd (VDiff2_callback wr req target out)) (ShardName target)
     = Some (fst (tmc_VDiff wr (Primary target) req)) \<and>
   fst (VDiff2_callback wr req target out) = snd (tmc_VDiff wr (Primary target) req) \<and>
   (\<forall>t \<in> set ts.
      ShardName t \<in> dom (Responses (snd (ForAllTargets ts (VDiff2_callback wr req) out))))"
  by (simp add: ForAllTargets_dom) (simp add: VDiff2_callback_def split: prod.splits)

theorem VDiff2_callback_stores_response_witness:
  "fst (VDiff2_callback failing_wrangler sample_request sample_target empty_output)
     = Some (Failure ''rpc failed'') \<and>
   Responses (snd (VDiff2_callback failing_wrangler sample_request sample_target empty_output))
     ''-80'' = Some None \<and>
   ''-80'' \<in> dom (Responses (snd (ForAllTargets [sample_target, other_target]
                (VDiff2_callback failing_wrangler sample_request) empty_output))) \<and>
   ''80-'' \<in> dom (Responses (snd (ForAllTargets [sample_target, other_target]
                (VDiff2_callback failing_wrangler sample_request) empty_output)))"
  using VDiff2_callback_stores_response
    [of failing_wrangler sample_request sample_target empty_output
        "[sample_target, other_target]"]
  by (simp add: failing_wrangler_def sample_target_def other_target_def)

subsection \<open>What the retry protocol leaves unchanged\<close>

lemma reader_frame_refl [simp]: "reader_frame r r"
  by (simp add: reader_frame_def)

lemma reader_frame_trans: "reader_frame r r1 \<Longrightarrow> reader_frame r1 r2 \<Longrightarrow> reader_frame r r2"
  by (simp add: reader_frame_def)

lemma world_frame_refl [simp]: "world_frame w w"
  by (simp add: world_frame_def)

lemma world_frame_trans: "world_frame w w1 \<Longrightarrow> world_frame w1 w2 \<Longrightarrow> world_frame w w2"
  by (auto simp: world_frame_def)

lemma world_frame_emit [simp]: "world_frame w (emit evs w)"
  by (simp add: world_frame_def emit_def)

lemma generateQuery_result: "generateQuery P r = Inr r' \<Longrightarrow> \<exists>q. r' = r\<lparr>query := q\<rparr>"
  by (auto simp: generateQuery_def Let_def split: sum.splits if_splits option.splits)

lemma Close_frame: "Close r w = (r', w') \<Longrightarrow> r' = r \<and> world_frame w w'"
  by (auto simp: Close_def split: option.splits)

lemma getTablet_frame:
  "getTablet r w = (x, r', w') \<Longrightarrow> reader_frame r r' \<and> world_frame w w'"
  by (auto simp: getTablet_def Close_def Let_def reader_frame_def world_frame_def emit_def
      split: option.splits sum.splits if_splits prod.splits)

lemma startStream_frame:
  "startStream P r w = Inr (x, r', w') \<Longrightarrow> reader_frame r r' \<and> world_frame w w'"
  by (auto simp: startStream_def Let_def reader_frame_def world_frame_def emit_def Recv_def
      dest!: generateQuery_result
      split: option.splits sum.splits if_splits prod.splits)

lemma attempt_recv_frame: "attempt_recv a r w = Inr out \<Longrightarrow> outcome_frame r w out"
  by (auto simp: attempt_recv_def Let_def reader_frame_def world_frame_def emit_def Recv_def
      outcome_frame_def split: option.splits sum.splits if_splits prod.splits)

lemma outcome_frame_trans:
  "reader_frame r r1 \<Longrightarrow> world_frame w w1 \<Longrightarrow> outcome_frame r1 w1 out \<Longrightarrow> outcome_frame r w out"
  by (auto simp: outcome_frame_def split: attempt_outcome.splits
      intro: reader_frame_trans world_frame_trans)

lemma attempt_restart_frame:
  assumes "attempt_restart P a r w = Inr out"
  shows "outcome_frame r w out"
proof (cases "a > 1")
  case False
  then show ?thesis using assms by (simp add: attempt_restart_def attempt_recv_frame)
next
  case True
  then obtain x r1 w1 where st: "startStream P r w = Inr (x, r1, w1)"
    using assms by (auto simp: attempt_restart_def split: sum.splits)
  then have fr: "reader_frame r r1" "world_frame w w1"
    using startStream_frame by blast+
  obtain retryable err where x: "x = (retryable, err)" by (cases x)
  show ?thesis
  proof (cases err)
    case None
    then have "attempt_recv a r1 w1 = Inr out"
      using assms True st x by (simp add: attempt_restart_def)
    then show ?thesis using fr by (blast intro: outcome_frame_trans attempt_recv_frame)
  next
    case (Some e)
    then show ?thesis using assms True st x fr
      by (auto simp: attempt_restart_def outcome_frame_def split: if_splits)
  qed
qed

lemma nextWithRetries_attempt_frame:
  assumes "nextWithRetries_attempt P a r w = Inr out"
  shows "outcome_frame r w out"
proof (cases "a > 2")
  case False
  then show ?thesis using assms by (simp add: nextWithRetries_attempt_def attempt_restart_frame)
next
  case True
  obtain retryable err r1 w1 where gt: "getTablet r w = ((retryable, err), r1, w1)"
    by (metis prod.exhaust)
  then have fr: "reader_frame r r1" "world_frame w w1"
    using getTablet_frame by blast+
  show ?thesis
  proof (cases err)
    case None
    then have "attempt_restart P a r1 w1 = Inr out"
      using assms True gt by (simp add: nextWithRetries_attempt_def)
    then show ?thesis using fr by (blast intro: outcome_frame_trans attempt_restart_frame)
  next
    case (Some e)
    then show ?thesis using assms True gt fr
      by (auto simp: nextWithRetries_attempt_def outcome_frame_def split: if_splits)
  qed
qed

lemma retry_loop_panic:
  "nextWithRetries_attempt P (a + 1) r w = Inl p \<Longrightarrow> retry_loop P cerr n a r w = Inl p"
  by (subst retry_loop.simps) simp

lemma retry_loop_Returned:
  "nextWithRetries_attempt P (a + 1) r w = Inr (Returned res err r1 w1) \<Longrightarrow>
   retry_loop P cerr n a r w = Inr ((res, err), r1, w1)"
  by (subst retry_loop.simps) simp

lemma retry_loop_fail_early:
  "nextWithRetries_attempt P (a + 1) r w = Inr (GotoRetry e r1 w1) \<Longrightarrow>
   a = 1 \<Longrightarrow> \<not> allowMultipleRetries r1 \<Longrightarrow>
   retry_loop P cerr n a r w =
     Inr ((None, Some (Wrap e (tp_description w1 @ first_retry_failed))), r1, w1)"
  by (subst retry_loop.simps) simp

lemma retry_loop_done:
  "nextWithRetries_attempt P (a + 1) r w = Inr (GotoRetry e r1 w1) \<Longrightarrow>
   a \<noteq> 1 \<or> allowMultipleRetries r1 \<Longrightarrow>
   retry_loop P cerr 0 a r w =
     Inr ((None, Some (ctx_done_error cerr (note_retry (a + 1) r1 w1))), r1,
          note_retry (a + 1) r1 w1)"
  by (subst retry_loop.simps) (auto simp: Let_def)

lemma retry_loop_pause:
  "nextWithRetries_attempt P (a + 1) r w = Inr (GotoRetry e r1 w1) \<Longrightarrow>
   a \<noteq> 1 \<or> allowMultipleRetries r1 \<Longrightarrow>
   retry_loop P cerr (Suc n) a r w = retry_loop P cerr n (a + 1) r1 (note_retry (a + 1) r1 w1)"
  by (subst retry_loop.simps) (auto simp: Let_def)

lemma note_retry_frame [simp]: "world_frame w (note_retry a r w)"
  by (simp add: note_retry_def split: option.splits)

lemma retry_loop_frame:
  "retry_loop P cerr n a r w = Inr (x, r', w') \<Longrightarrow> reader_frame r r' \<and> world_frame w w'"
proof (induction n arbitrary: a r w)
  case 0
  show ?case
  proof (cases "nextWithRetries_attempt P (a + 1) r w")
    case (Inl p)
    then show ?thesis using 0 by (simp add: retry_loop_panic)
  next
    case (Inr out)
    then have fr: "outcome_frame r w out" by (rule nextWithRetries_attempt_frame)
    show ?thesis
    proof (cases out)
      case (Returned res err r1 w1)
      then show ?thesis using 0 Inr fr by (simp add: retry_loop_Returned outcome_frame_def)
    next
      case (GotoRetry e r1 w1)
      then have fr1: "reader_frame r r1" "world_frame w w1"
        using fr by (simp_all add: outcome_frame_def)
      show ?thesis
      proof (cases "a \<noteq> 1 \<or> allowMultipleRetries r1")
        case True
        have w2: "world_frame w (note_retry (a + 1) r1 w1)"
          using fr1(2) note_retry_frame by (rule world_frame_trans)
        have "r' = r1 \<and> w' = note_retry (a + 1) r1 w1"
          using 0 Inr GotoRetry True retry_loop_done [of P a r w e r1 w1 cerr] by auto
        then show ?thesis using fr1(1) w2 by simp
      next
        case False
        then show ?thesis using 0 Inr GotoRetry fr1 by (simp add: retry_loop_fail_early)
      qed
    qed
  qed
next
  case (Suc n)
  show ?case
  proof (cases "nextWithRetries_attempt P (a + 1) r w")
    case (Inl p)
    then show ?thesis using Suc.prems by (simp add: retry_loop_panic)
  next
    case (Inr out)
    then have fr: "outcome_frame r w out" by (rule nextWithRetries_attempt_frame)
    show ?thesis
    proof (cases out)
      case (Returned res err r1 w1)
      then show ?thesis using Suc.prems Inr fr by (simp add: retry_loop_Returned outcome_frame_def)
    next
      case (GotoRetry e r1 w1)
      then have fr1: "reader_frame r r1" "world_frame w w1"
        using fr by (simp_all add: outcome_frame_def)
      show ?thesis
      proof (cases "a \<noteq> 1 \<or> allowMultipleRetries r1")
        case True
        have w2: "world_frame w (note_retry (a + 1) r1 w1)"
          using fr1(2) note_retry_frame by (rule world_frame_trans)
        have "retry_loop P cerr n (a + 1) r1 (note_retry (a + 1) r1 w1) = Inr (x, r', w')"
          using Suc.prems Inr GotoRetry True by (simp add: retry_loop_pause)
        then have "reader_frame r1 r' \<and> world_frame (note_retry (a + 1) r1 w1) w'"
          by (rule Suc.IH)
        then show ?thesis using fr1 w2 by (blast intro: reader_frame_trans world_frame_trans)
      next
        case False
        then show ?thesis using Suc.prems Inr GotoRetry fr1 by (simp add: retry_loop_fail_early)
      qed
    qed
  qed
qed

subsection \<open>Next\<close>

text \<open>
  Claim C3. When \<^verbatim>\<open>Next\<close> returns a result with at least one row, \<^verbatim>\<open>lastRow\<close> of the reader
  it leaves behind is the last row of that result; when the result is \<^verbatim>\<open>nil\<close> or has no
  row, \<^verbatim>\<open>lastRow\<close> is what it was before the call. This holds on the direct path and on
  the path through \<^verbatim>\<open>nextWithRetries\<close>.
\<close>

theorem Next_records_lastRow:
  assumes "Next P ctx r w = Inr ((result, err), r', w')"
  shows "lastRow r' =
           (case result of
              None \<Rightarrow> lastRow r
            | Some res \<Rightarrow> if Rows res = [] then lastRow r else last (Rows res))"
proof -
  obtain stream where stream: "output' r = Some stream"
    using assms by (auto simp: Next_def split: option.splits)
  define r0 where "r0 = r\<lparr>output' := Some (snd (Recv stream))\<rparr>"
  have r0: "lastRow r0 = lastRow r" by (simp add: r0_def)
  have "lastRow r' =
          (case result of
             None \<Rightarrow> lastRow r
           | Some res \<Rightarrow> if length (Rows res) > 0
                          then Rows res ! (length (Rows res) - 1) else lastRow r)"
  proof (cases "snd (fst (Recv stream)) \<noteq> None \<and> snd (fst (Recv stream)) \<noteq> Some io_EOF")
    case False
    then show ?thesis using assms stream
      by (auto simp: Next_def Let_def split: prod.splits option.splits if_splits)
  next
    case True
    obtain res0 e0 stream' where rc: "Recv stream = ((res0, e0), stream')"
      by (metis prod.exhaust)
    have e0: "e0 \<noteq> None" "e0 \<noteq> Some io_EOF" using True rc by simp_all
    obtain t where t: "tablet r = Some t"
      using assms stream rc e0 by (auto simp: Next_def Let_def split: option.splits)
    define w0 where "w0 = emit [StatsStreamingQueryErrors (Alias t)] (emit [RecvCall] w)"
    have unfolded: "Next P ctx r w =
        (case nextWithRetries P ctx r0 w0 of
           Inl p \<Rightarrow> Inl p
         | Inr ((result, err), r1, w1) \<Rightarrow>
             (case result of
                None \<Rightarrow> Inr ((result, err), r1, w1)
              | Some res \<Rightarrow>
                  (if length (Rows res) > 0 then
                     Inr ((result, err), r1\<lparr>lastRow := Rows res ! (length (Rows res) - 1)\<rparr>, w1)
                   else Inr ((result, err), r1, w1))))"
      using stream rc e0 t by (simp add: Next_def Let_def r0_def w0_def)
    obtain x r1 w1 where run: "nextWithRetries P ctx r0 w0 = Inr (x, r1, w1)"
      using assms unfolded by (cases "nextWithRetries P ctx r0 w0") auto
    have "reader_frame r0 r1"
      using run retry_loop_frame by (fastforce simp: nextWithRetries_def)
    then have "lastRow r1 = lastRow r" using r0 by (simp add: reader_frame_def)
    then show ?thesis using assms unfolded run
      by (cases x) (auto split: option.splits if_splits)
  qed
  then show ?thesis
    by (auto simp: last_conv_nth split: option.splits if_splits)
qed

theorem Next_records_lastRow_witness:
  "(\<exists>err r' w'. Next sample_prims sample_ctx connected_reader recovering_world
                   = Inr ((Some sample_batch, err), r', w') \<and>
                 lastRow r' = Some [Some ''9'', Some ''2'']) \<and>
   (\<exists>err r' w'. Next sample_prims sample_ctx resumed_reader failing_world
                   = Inr ((Some \<lparr>Fields = [], Rows = []\<rparr>, err), r', w') \<and>
                 lastRow r' = Some [Some ''7'', Some ''3''])"
proof -
  have "\<not> isl (Next sample_prims sample_ctx connected_reader recovering_world)"
    and "fst (fst (projr (Next sample_prims sample_ctx connected_reader recovering_world)))
           = Some sample_batch"
    by code_simp+
  then obtain err1 r1 w1 where run1:
    "Next sample_prims sample_ctx connected_reader recovering_world
       = Inr ((Some sample_batch, err1), r1, w1)"
    by (cases "Next sample_prims sample_ctx connected_reader recovering_world") auto
  have "\<not> isl (Next sample_prims sample_ctx resumed_reader failing_world)"
    and "fst (fst (projr (Next sample_prims sample_ctx resumed_reader failing_world)))
           = Some \<lparr>Fields = [], Rows = []\<rparr>"
    by code_simp+
  then obtain err2 r2 w2 where run2:
    "Next sample_prims sample_ctx resumed_reader failing_world
       = Inr ((Some \<lparr>Fields = [], Rows = []\<rparr>, err2), r2, w2)"
    by (cases "Next sample_prims sample_ctx resumed_reader failing_world") auto
  have "lastRow r1 = Some [Some ''9'', Some ''2'']"
    using Next_records_lastRow [OF run1] by (simp add: sample_batch_def)
  moreover have "lastRow r2 = Some [Some ''7'', Some ''3'']"
    using Next_records_lastRow [OF run2]
    by (simp add: resumed_reader_def connected_reader_def sample_reader_def)
  ultimately show ?thesis using run1 run2 by blast
qed

subsection \<open>The steps of one attempt\<close>

lemma new_steps_refl [simp]: "new_steps w w = []"
  by (simp add: new_steps_def)

lemma new_steps_trans:
  "world_frame w w1 \<Longrightarrow> world_frame w1 w2 \<Longrightarrow> new_steps w w2 = new_steps w w1 @ new_steps w1 w2"
  by (auto simp: world_frame_def new_steps_def)

lemma new_steps_emit [simp]: "new_steps w (emit evs w) = filter protocol_step evs"
  by (simp add: new_steps_def emit_def)


lemma exec_calls_emit [simp]: "exec_calls (emit evs w) = exec_calls w"
  by (simp add: emit_def)

lemma streamer_emit [simp]: "streamer (emit evs w) = streamer w"
  by (simp add: emit_def)

lemma trace_emit [simp]: "trace (emit evs w) = trace w @ evs"
  by (simp add: emit_def)

lemma tp_calls_emit [simp]: "tp_calls (emit evs w) = tp_calls w"
  by (simp add: emit_def)

lemma dial_calls_emit [simp]: "dial_calls (emit evs w) = dial_calls w"
  by (simp add: emit_def)

lemma calls_note_retry [simp]:
  "tp_calls (note_retry a r w) = tp_calls w" "dial_calls (note_retry a r w) = dial_calls w"
  by (simp_all add: note_retry_def split: option.splits)

lemma exec_conn_restart_event [simp]: "exec_conn (restart_event P r c t) = Some c"
  by (simp add: restart_event_def)

lemma exec_target_restart_event [simp]:
  "exec_target (restart_event P r c t) = Some (target_of t)"
  by (simp add: restart_event_def)

lemma protocol_step_restart_event [simp]: "protocol_step (restart_event P r c t)"
  by (simp add: restart_event_def)




lemma startStream_steps:
  assumes "startStream P r w = Inr ((retryable, eo), r1, w1)"
  shows "\<exists>c t. conn r = Some c \<and> tablet r = Some t \<and> new_steps w w1 = [restart_event P r c t]"
    and "tablet r1 = tablet r \<and> conn r1 = conn r"
    and "eo \<noteq> None \<longrightarrow> retryable \<and> snd (streamer w (exec_calls w) 0) \<noteq> None"
    and "eo = None \<longrightarrow> snd (streamer w (exec_calls w) 0) = None \<and>
           output' r1 = Some (\<lambda>n. streamer w (exec_calls w) (Suc n))"
    and "tp_calls w1 = tp_calls w \<and> dial_calls w1 = dial_calls w"
proof -
  obtain r0 where gq: "generateQuery P r = Inr r0"
    using assms by (auto simp: startStream_def split: sum.splits)
  then obtain q where r0: "r0 = r\<lparr>query := q\<rparr>" using generateQuery_result by blast
  have q: "restart_query P r = q" using gq r0 by (simp add: restart_query_def)
  show "\<exists>c t. conn r = Some c \<and> tablet r = Some t \<and> new_steps w w1 = [restart_event P r c t]"
    using assms gq r0 q
    by (auto simp: startStream_def Let_def Recv_def new_steps_def target_of_def emit_def
        restart_event_def split: option.splits if_splits prod.splits)
  show "tablet r1 = tablet r \<and> conn r1 = conn r"
    using assms gq r0
    by (auto simp: startStream_def Let_def Recv_def split: option.splits if_splits prod.splits)
  show "eo \<noteq> None \<longrightarrow> retryable \<and> snd (streamer w (exec_calls w) 0) \<noteq> None"
    using assms gq r0
    by (auto simp: startStream_def Let_def Recv_def split: option.splits if_splits prod.splits)
  show "eo = None \<longrightarrow> snd (streamer w (exec_calls w) 0) = None \<and>
           output' r1 = Some (\<lambda>n. streamer w (exec_calls w) (Suc n))"
    using assms gq r0
    by (auto simp: startStream_def Let_def Recv_def split: option.splits if_splits prod.splits)
  show "tp_calls w1 = tp_calls w \<and> dial_calls w1 = dial_calls w"
    using assms gq r0
    by (auto simp: startStream_def Let_def Recv_def emit_def
        split: option.splits if_splits prod.splits)
qed

lemma attempt_recv_steps:
  assumes "attempt_recv a r w = Inr out" and "output' r = Some stream"
  shows "case out of
           Returned res err r1 w1 \<Rightarrow>
             new_steps w w1 = [] \<and> tablet r1 = tablet r \<and> conn r1 = conn r \<and>
             tp_calls w1 = tp_calls w \<and> dial_calls w1 = dial_calls w \<and>
             (snd (stream 0) = None \<or> snd (stream 0) = Some io_EOF) \<and>
             res = fst (stream 0) \<and> err = snd (stream 0)
         | GotoRetry e r1 w1 \<Rightarrow>
             new_steps w w1 = [] \<and> tablet r1 = tablet r \<and> conn r1 = conn r \<and>
             tp_calls w1 = tp_calls w \<and> dial_calls w1 = dial_calls w \<and>
             snd (stream 0) = Some e \<and> e \<noteq> io_EOF"
  using assms
  by (auto simp: attempt_recv_def Let_def Recv_def new_steps_def emit_def
      split: option.splits sum.splits if_splits prod.splits)

lemma attempt_restart_steps:
  assumes "attempt_restart P a r w = Inr out" and "a > 1"
  shows "\<exists>c t r1 w1. conn r = Some c \<and> tablet r = Some t \<and>
           new_steps w w1 = [restart_event P r c t] \<and>
           tablet r1 = tablet r \<and> conn r1 = conn r \<and>
           tp_calls w1 = tp_calls w \<and> dial_calls w1 = dial_calls w \<and>
           ((\<exists>e. out = GotoRetry e r1 w1) \<and> stream_fails (streamer w (exec_calls w)) \<or>
            (\<exists>res err. out = Returned res err r1 w1) \<and>
              \<not> stream_fails (streamer w (exec_calls w)))"
proof -
  obtain retryable eo r1 w1 where st: "startStream P r w = Inr ((retryable, eo), r1, w1)"
    using assms by (auto simp: attempt_restart_def split: sum.splits)
  note ss = startStream_steps [OF st]
  from ss(1) obtain c t where x: "conn r = Some c" "tablet r = Some t"
    "new_steps w w1 = [restart_event P r c t]" by blast
  have fr1: "world_frame w w1" using startStream_frame [OF st] by simp
  show ?thesis
  proof (cases eo)
    case (Some e)
    then have "out = GotoRetry e r1 w1" "stream_fails (streamer w (exec_calls w))"
      using assms st ss(3) by (auto simp: attempt_restart_def stream_fails_def)
    then show ?thesis using x ss(2) ss(5) by blast
  next
    case None
    then have rc: "attempt_recv a r1 w1 = Inr out"
      using assms st by (simp add: attempt_restart_def)
    have out1: "output' r1 = Some (\<lambda>n. streamer w (exec_calls w) (Suc n))"
      and s0: "snd (streamer w (exec_calls w) 0) = None"
      using ss(4) None by simp_all
    note rs = attempt_recv_steps [OF rc out1]
    have fr2: "outcome_frame r1 w1 out" using rc by (rule attempt_recv_frame)
    show ?thesis
    proof (cases out)
      case (Returned res err r2 w2)
      then have "world_frame w1 w2" "new_steps w1 w2 = []"
        using rs fr2 by (simp_all add: outcome_frame_def)
      then have "new_steps w w2 = [restart_event P r c t]"
        using new_steps_trans [OF fr1, of w2] x(3) by simp
      moreover have "\<not> stream_fails (streamer w (exec_calls w))"
        using rs Returned s0 by (auto simp: stream_fails_def)
      ultimately show ?thesis using x ss(2) ss(5) rs Returned by auto
    next
      case (GotoRetry e r2 w2)
      then have "world_frame w1 w2" "new_steps w1 w2 = []"
        using rs fr2 by (simp_all add: outcome_frame_def)
      then have "new_steps w w2 = [restart_event P r c t]"
        using new_steps_trans [OF fr1, of w2] x(3) by simp
      moreover have "stream_fails (streamer w (exec_calls w))"
        using rs GotoRetry s0 by (auto simp: stream_fails_def)
      ultimately show ?thesis using x ss(2) ss(5) rs GotoRetry by auto
    qed
  qed
qed



subsection \<open>The retry protocol\<close>


lemma first_retry_attempt:
  assumes "nextWithRetries_attempt P 2 r w = Inr out"
  shows "\<exists>c t r1 w1. conn r = Some c \<and> tablet r = Some t \<and>
           new_steps w w1 = [restart_event P r c t] \<and>
           tablet r1 = tablet r \<and> conn r1 = conn r \<and>
           tp_calls w1 = tp_calls w \<and> dial_calls w1 = dial_calls w \<and>
           ((\<exists>e. out = GotoRetry e r1 w1) \<and> stream_fails (streamer w (exec_calls w)) \<or>
            (\<exists>res err. out = Returned res err r1 w1) \<and>
              \<not> stream_fails (streamer w (exec_calls w)))"
proof -
  have "attempt_restart P 2 r w = Inr out"
    using assms by (simp add: nextWithRetries_attempt_def)
  then show ?thesis by (rule attempt_restart_steps) simp
qed



text \<open>
  Claim C5. Without \<^verbatim>\<open>allowMultipleRetries\<close>, \<^verbatim>\<open>nextWithRetries\<close> starts exactly one
  streaming query, on the connection and tablet the reader holds; it never asks the
  provider, dials or logs a further attempt, and keeps tablet and connection. When that
  restart fails, the call returns no result and the error about the first retry, and
  nothing of this depends on the retry context: no pause is made.
\<close>

theorem nextWithRetries_single_retry:
  assumes noretry: "\<not> allowMultipleRetries r"
    and run: "nextWithRetries P ctx r w = Inr ((result, err), r', w')"
  shows "(\<exists>c t x. conn r = Some c \<and> tablet r = Some t \<and>
            exec_conn x = Some c \<and> exec_target x = Some (target_of t) \<and>
            new_steps w w' = [x]) \<and>
         tablet r' = tablet r \<and> conn r' = conn r \<and>
         (stream_fails (streamer w (exec_calls w)) \<longrightarrow>
            result = None \<and>
            (\<exists>e. err = Some (Wrap e (tp_description w @ first_retry_failed)))) \<and>
         nextWithRetries P ctx' r w = nextWithRetries P ctx r w"
proof -
  have loop: "retry_loop P (ctxErr ctx) (pauses ctx) 1 r w = Inr ((result, err), r', w')"
    using run by (simp add: nextWithRetries_def)
  obtain out where out: "nextWithRetries_attempt P (1 + 1) r w = Inr out"
    using loop by (cases "nextWithRetries_attempt P (1 + 1) r w") (simp_all add: retry_loop_panic)
  then have out2: "nextWithRetries_attempt P 2 r w = Inr out"
    by (simp add: numeral_2_eq_2)
  from first_retry_attempt [OF out2]
  obtain c t r1 w1 where held0: "conn r = Some c" "tablet r = Some t"
    and steps1: "new_steps w w1 = [restart_event P r c t]"
    and kept: "tablet r1 = tablet r" "conn r1 = conn r"
    and alt: "(\<exists>e. out = GotoRetry e r1 w1) \<and> stream_fails (streamer w (exec_calls w)) \<or>
            (\<exists>res err. out = Returned res err r1 w1) \<and>
              \<not> stream_fails (streamer w (exec_calls w))"
    by blast
  have first: "\<exists>c t x. conn r = Some c \<and> tablet r = Some t \<and>
            exec_conn x = Some c \<and> exec_target x = Some (target_of t) \<and>
            new_steps w w1 = [x]"
    using held0 steps1 exec_conn_restart_event exec_target_restart_event by blast
  have fr: "outcome_frame r w out" using out2 by (rule nextWithRetries_attempt_frame)
  from alt show ?thesis
  proof (elim disjE conjE exE)
    fix e assume go: "out = GotoRetry e r1 w1"
    then have "\<not> allowMultipleRetries r1" "tp_description w1 = tp_description w"
      using fr noretry by (simp_all add: outcome_frame_def reader_frame_def world_frame_def)
    then have early: "\<And>cerr n. retry_loop P cerr n 1 r w =
        Inr ((None, Some (Wrap e (tp_description w @ first_retry_failed))), r1, w1)"
      using retry_loop_fail_early [OF out [unfolded go]] by simp
    then have "result = None" "err = Some (Wrap e (tp_description w @ first_retry_failed))"
      "r' = r1" "w' = w1"
      using loop by simp_all
    moreover have "nextWithRetries P ctx' r w = nextWithRetries P ctx r w"
      using early by (simp add: nextWithRetries_def)
    ultimately show ?thesis using first kept by blast
  next
    fix res1 err1
    assume ret: "out = Returned res1 err1 r1 w1"
      and ok: "\<not> stream_fails (streamer w (exec_calls w))"
    have returned: "\<And>cerr n. retry_loop P cerr n 1 r w = Inr ((res1, err1), r1, w1)"
      using retry_loop_Returned [OF out [unfolded ret]] by simp
    then have "r' = r1" "w' = w1" using loop by simp_all
    moreover have "nextWithRetries P ctx' r w = nextWithRetries P ctx r w"
      using returned by (simp add: nextWithRetries_def)
    ultimately show ?thesis using first kept ok by blast
  qed
qed

theorem nextWithRetries_single_retry_witness:
  "\<not> allowMultipleRetries single_retry_reader \<and>
   stream_fails (streamer failing_world (exec_calls failing_world)) \<and>
   (\<exists>e r' w'. nextWithRetries sample_prims sample_ctx single_retry_reader failing_world
                 = Inr ((None, Some (Wrap e (''provider'' @ first_retry_failed))), r', w') \<and>
      (\<exists>x. exec_conn x = Some 0 \<and> exec_target x = Some (target_of sample_tablet) \<and>
           new_steps failing_world w' = [x]) \<and>
      tablet r' = Some sample_tablet \<and> conn r' = Some 0)"
proof -
  have noretry: "\<not> allowMultipleRetries single_retry_reader"
    by (simp add: single_retry_reader_def)
  have fails: "stream_fails (streamer failing_world (exec_calls failing_world))"
    by (simp add: failing_world_def stream_fails_def failing_stream_def)
  have "\<not> isl (nextWithRetries sample_prims sample_ctx single_retry_reader failing_world)"
    by code_simp
  then obtain result err r' w' where run:
    "nextWithRetries sample_prims sample_ctx single_retry_reader failing_world
       = Inr ((result, err), r', w')"
    by (cases "nextWithRetries sample_prims sample_ctx single_retry_reader failing_world") auto
  have held: "conn single_retry_reader = Some 0" "tablet single_retry_reader = Some sample_tablet"
    by (simp_all add: single_retry_reader_def connected_reader_def)
  have descr: "tp_description failing_world = ''provider''"
    by (simp add: failing_world_def)
  from nextWithRetries_single_retry [OF noretry run, of sample_ctx]
  show ?thesis using noretry fails run held descr by auto
qed

subsection \<open>Construction\<close>

text \<open>
  Claim C6. \<^verbatim>\<open>NewRestartableResultReader\<close> makes one attempt to get a tablet and start the
  stream. When it fails with an error that can be retried it makes exactly one more
  attempt. When the first attempt fails with an error that cannot be retried, or the
  second attempt fails too, the constructor returns the error and no reader.
\<close>

theorem NewRestartableResultReader_attempts:
  "NewRestartableResultReader P w td0 chunk0 allow0 =
     (case connect_attempt P
             \<lparr>td = td0, chunk = chunk0, allowMultipleRetries = allow0, txID = 0, query = '''',
              tablet = None, conn = None, fields' = [], output' = None, lastRow = None\<rparr> w of
        Inl p \<Rightarrow> Inl p
      | Inr ((retryable, None), r1, w1) \<Rightarrow> Inr ((Some r1, None), w1)
      | Inr ((retryable, Some err), r1, w1) \<Rightarrow>
          (if \<not> retryable then
             Inr ((None, Some (Wrap err (''failed to initialize tablet connection: retryable ''
                                          @ show_bool retryable))), w1)
           else
             (case connect_attempt P r1 (emit [StatsRetryCount] w1) of
                Inl p \<Rightarrow> Inl p
              | Inr ((retryable2, None), r2, w2) \<Rightarrow> Inr ((Some r2, None), w2)
              | Inr ((retryable2, Some err2), r2, w2) \<Rightarrow>
                  Inr ((None,
                        Some (Wrap err2 (''failed to initialize tablet connection: retryable ''
                                           @ show_bool retryable2))), w2))))"
  unfolding NewRestartableResultReader_def tryToConnect_def Let_def
  apply (subst tryToConnect_loop.simps)
  apply (subst tryToConnect_loop.simps)
  apply (auto split: sum.splits prod.splits option.splits)
  done

theorem NewRestartableResultReader_attempts_witness:
  "(\<exists>err w'. NewRestartableResultReader sample_prims failing_world sample_td
                 \<lparr>start = Some ''5'', end' = Some ''50''\<rparr> True = Inr ((None, Some err), w') \<and>
       length (filter (\<lambda>e. e = TpGetTablet) (trace w')) = 2) \<and>
   (\<exists>err w'. NewRestartableResultReader sample_prims undialable_world sample_td
                 \<lparr>start = Some ''5'', end' = Some ''50''\<rparr> True = Inr ((None, Some err), w') \<and>
       length (filter (\<lambda>e. e = TpGetTablet) (trace w')) = 1) \<and>
   (\<exists>r w'. NewRestartableResultReader sample_prims recovering_world sample_td
                 \<lparr>start = Some ''5'', end' = Some ''50''\<rparr> True = Inr ((Some r, None), w') \<and>
       length (filter (\<lambda>e. e = TpGetTablet) (trace w')) = 1)"
proof -
  define run where "run = (\<lambda>w. NewRestartableResultReader sample_prims w sample_td
                 \<lparr>start = Some ''5'', end' = Some ''50''\<rparr> True)"
  have twice: "\<not> isl (run failing_world) \<and> fst (fst (projr (run failing_world))) = None \<and>
      snd (fst (projr (run failing_world))) \<noteq> None \<and>
      length (filter (\<lambda>e. e = TpGetTablet) (trace (snd (projr (run failing_world))))) = 2"
    unfolding run_def NewRestartableResultReader_attempts by code_simp
  have once: "\<not> isl (run undialable_world) \<and> fst (fst (projr (run undialable_world))) = None \<and>
      snd (fst (projr (run undialable_world))) \<noteq> None \<and>
      length (filter (\<lambda>e. e = TpGetTablet) (trace (snd (projr (run undialable_world))))) = 1"
    unfolding run_def NewRestartableResultReader_attempts by code_simp
  have good: "\<not> isl (run recovering_world) \<and> fst (fst (projr (run recovering_world))) \<noteq> None \<and>
      snd (fst (projr (run recovering_world))) = None \<and>
      length (filter (\<lambda>e. e = TpGetTablet) (trace (snd (projr (run recovering_world))))) = 1"
    unfolding run_def NewRestartableResultReader_attempts by code_simp
  have "\<exists>err w'. run failing_world = Inr ((None, Some err), w') \<and>
       length (filter (\<lambda>e. e = TpGetTablet) (trace w')) = 2"
    using twice by (cases "run failing_world") auto
  moreover have "\<exists>err w'. run undialable_world = Inr ((None, Some err), w') \<and>
       length (filter (\<lambda>e. e = TpGetTablet) (trace w')) = 1"
    using once by (cases "run undialable_world") auto
  moreover have "\<exists>r w'. run recovering_world = Inr ((Some r, None), w') \<and>
       length (filter (\<lambda>e. e = TpGetTablet) (trace w')) = 1"
    using good by (cases "run recovering_world") auto
  ultimately show ?thesis unfolding run_def by blast
qed

end
